theory Spec2Isabelle
  imports Complex_Main "HOL-Library.Word" "HOL-Library.Sublist" "HOL-Library.AList"
begin

section \<open>JavaScript values\<close>

text \<open>
  A JavaScript string is a sequence of UTF-16 code units. Literals of the source are
  written \<open>str ''...''\<close> when they are ASCII and as explicit code units otherwise.
\<close>

type_synonym jsstring = "16 word list"

definition str :: "string \<Rightarrow> jsstring" where
  "str s = map of_char s"

text \<open>
  A JavaScript number: the finite doubles are represented by their exact value.
\<close>

datatype number = NaN | NegInf | Fin rat | PosInf

text \<open>
  Tool inputs are JSON objects (\<open>Record<string, unknown>\<close>); a property that is absent
  reads as \<open>undefined\<close>.
\<close>

datatype jsval =
    JUndefined
  | JNull
  | JBool bool
  | JNum number
  | JStr jsstring
  | JArr "jsval list"
  | JObj "(jsstring \<times> jsval) list"

type_synonym jsrecord = "jsstring \<rightharpoonup> jsval"

definition getProp :: "jsrecord \<Rightarrow> string \<Rightarrow> jsval" where
  "getProp input k = (case input (str k) of None \<Rightarrow> JUndefined | Some v \<Rightarrow> v)"

text \<open>ECMAScript \<open>ToBoolean\<close>: what \<open>if (v)\<close> and \<open>a && b\<close> test.\<close>

fun ToBoolean :: "jsval \<Rightarrow> bool" where
  "ToBoolean JUndefined = False"
| "ToBoolean JNull = False"
| "ToBoolean (JBool b) = b"
| "ToBoolean (JNum NaN) = False"
| "ToBoolean (JNum (Fin q)) = (q \<noteq> 0)"
| "ToBoolean (JNum NegInf) = True"
| "ToBoolean (JNum PosInf) = True"
| "ToBoolean (JStr s) = (s \<noteq> [])"
| "ToBoolean (JArr xs) = True"
| "ToBoolean (JObj kvs) = True"

fun join :: "jsstring \<Rightarrow> jsstring list \<Rightarrow> jsstring" where
  "join sep [] = []"
| "join sep [x] = x"
| "join sep (x # y # ys) = x @ sep @ join sep (y # ys)"

text \<open>
  ECMAScript \<open>ToString\<close>, which a template literal applies to each substitution; it
  returns the string or throws. The rendering of a number (\<open>Number::toString\<close>) is a
  parameter \<open>nts\<close>. An array is rendered by \<open>join(",")\<close>, element by element, with
  \<open>null\<close> and \<open>undefined\<close> as the empty string. An object is rendered by
  \<open>Object.prototype.toString\<close> unless it has an own key \<open>toString\<close>: the value under
  that key is a JSON value, so it cannot be called, \<open>valueOf\<close> gives back the object,
  and the conversion throws a \<open>TypeError\<close>.
\<close>

datatype js_error = TypeError

fun collect :: "(js_error + jsstring) list \<Rightarrow> js_error + jsstring list" where
  "collect [] = Inr []"
| "collect (Inl e # rs) = Inl e"
| "collect (Inr x # rs) = (case collect rs of Inl e \<Rightarrow> Inl e | Inr xs \<Rightarrow> Inr (x # xs))"

fun ToString :: "(number \<Rightarrow> jsstring) \<Rightarrow> jsval \<Rightarrow> js_error + jsstring" where
  "ToString nts JUndefined = Inr (str ''undefined'')"
| "ToString nts JNull = Inr (str ''null'')"
| "ToString nts (JBool b) = Inr (if b then str ''true'' else str ''false'')"
| "ToString nts (JNum n) = Inr (nts n)"
| "ToString nts (JStr s) = Inr s"
| "ToString nts (JArr xs) =
     (case collect
        (map (\<lambda>x. if x = JUndefined \<or> x = JNull then Inr [] else ToString nts x) xs) of
        Inl e \<Rightarrow> Inl e
      | Inr parts \<Rightarrow> Inr (join (str '','') parts))"
| "ToString nts (JObj kvs) =
     (if str ''toString'' \<in> set (map fst kvs) then Inl TypeError
      else Inr (str ''[object Object]''))"

subsection \<open>String operations\<close>

text \<open>\<open>s.startsWith(p)\<close>\<close>

definition startsWith :: "jsstring \<Rightarrow> jsstring \<Rightarrow> bool" where
  "startsWith s p = (take (length p) s = p)"

text \<open>\<open>s.replace(pat, rep)\<close> with a string pattern: the first occurrence only.\<close>

fun replaceFirst :: "jsstring \<Rightarrow> jsstring \<Rightarrow> jsstring \<Rightarrow> jsstring" where
  "replaceFirst pat rep [] = (if pat = [] then rep else [])"
| "replaceFirst pat rep (c # cs) =
     (if take (length pat) (c # cs) = pat then rep @ drop (length pat) (c # cs)
      else c # replaceFirst pat rep cs)"

text \<open>\<open>s.replace(/_/g, " ")\<close>: every underscore becomes a space.\<close>

definition replaceUnderscores :: "jsstring \<Rightarrow> jsstring" where
  "replaceUnderscores s = map (\<lambda>c. if c = 0x5F then 0x20 else c) s"

section \<open>Tool display (utils/toolDisplay)\<close>

datatype SubagentStatus =
  SA_starting | SA_running | SA_thinking | SA_completed | SA_interrupted | SA_error

datatype ToolStatus = TS_pending | TS_running | TS_success | TS_error

text \<open>The string each member of the two union types is at run time.\<close>

fun SubagentStatus_str :: "SubagentStatus \<Rightarrow> jsstring" where
  "SubagentStatus_str SA_starting = str ''starting''"
| "SubagentStatus_str SA_running = str ''running''"
| "SubagentStatus_str SA_thinking = str ''thinking''"
| "SubagentStatus_str SA_completed = str ''completed''"
| "SubagentStatus_str SA_interrupted = str ''interrupted''"
| "SubagentStatus_str SA_error = str ''error''"

fun ToolStatus_str :: "ToolStatus \<Rightarrow> jsstring" where
  "ToolStatus_str TS_pending = str ''pending''"
| "ToolStatus_str TS_running = str ''running''"
| "ToolStatus_str TS_success = str ''success''"
| "ToolStatus_str TS_error = str ''error''"

definition getToolDisplayName ::
  "(number \<Rightarrow> jsstring) \<Rightarrow> jsstring \<Rightarrow> jsrecord \<Rightarrow> js_error + jsstring" where
  "getToolDisplayName nts name input =
     (if name = str ''Skill'' \<and> ToBoolean (getProp input ''skill'')
        then (case ToString nts (getProp input ''skill'') of
                Inl e \<Rightarrow> Inl e
              | Inr skill \<Rightarrow> Inr (str ''Skill: '' @ skill))
      else if name = str ''Task'' \<and> ToBoolean (getProp input ''subagent_type'')
        then (case ToString nts (getProp input ''subagent_type'') of
                Inl e \<Rightarrow> Inl e
              | Inr subagent_type \<Rightarrow> Inr (str ''Task: '' @ subagent_type))
      else if startsWith name (str ''mcp__obsidian__'')
        then Inr (replaceUnderscores (replaceFirst (str ''mcp__obsidian__'') [] name))
      else Inr name)"

text \<open>
  The optional parameter \<open>subagentStatus\<close> is an option; \<open>isSubagent && subagentStatus\<close>
  tests the truthiness of the status string.
\<close>

definition subagentStatus_truthy :: "SubagentStatus option \<Rightarrow> bool" where
  "subagentStatus_truthy s =
     (case s of None \<Rightarrow> False | Some v \<Rightarrow> ToBoolean (JStr (SubagentStatus_str v)))"

definition check_mark :: jsstring where
  "check_mark = [0x2713]"

definition ballot_x :: jsstring where
  "ballot_x = [0x2717]"

definition warning_sign :: jsstring where
  "warning_sign = [0x26A0]"

definition getToolStatusText ::
  "ToolStatus \<Rightarrow> bool \<Rightarrow> SubagentStatus option \<Rightarrow> jsstring" where
  "getToolStatusText status isSubagent subagentStatus =
     (if isSubagent \<and> subagentStatus_truthy subagentStatus then
        (case the subagentStatus of
           SA_starting \<Rightarrow> str ''starting...''
         | SA_running \<Rightarrow> str ''running...''
         | SA_thinking \<Rightarrow> str ''thinking...''
         | SA_completed \<Rightarrow> check_mark
         | SA_interrupted \<Rightarrow> warning_sign @ str '' interrupted''
         | SA_error \<Rightarrow> ballot_x)
      else
        (case status of
           TS_pending \<Rightarrow> str ''pending''
         | TS_running \<Rightarrow> str ''running...''
         | TS_success \<Rightarrow> check_mark
         | TS_error \<Rightarrow> ballot_x))"

definition getToolStatusClass ::
  "ToolStatus \<Rightarrow> bool \<Rightarrow> SubagentStatus option \<Rightarrow> jsstring" where
  "getToolStatusClass status isSubagent subagentStatus =
     (if isSubagent \<and> subagentStatus_truthy subagentStatus
      then SubagentStatus_str (the subagentStatus)
      else ToolStatus_str status)"

definition isSubagentRunning :: "SubagentStatus option \<Rightarrow> bool" where
  "isSubagentRunning subagentStatus =
     (subagentStatus = Some SA_starting \<or> subagentStatus = Some SA_running
      \<or> subagentStatus = Some SA_thinking)"

definition isSubagentTool :: "jsstring \<Rightarrow> bool" where
  "isSubagentTool name = (name = str ''Task'')"

section \<open>Console logger (interfaces/ILogger)\<close>

datatype LogLevel = LL_debug | LL_info | LL_warn | LL_error

fun LogLevel_str :: "LogLevel \<Rightarrow> jsstring" where
  "LogLevel_str LL_debug = str ''debug''"
| "LogLevel_str LL_info = str ''info''"
| "LogLevel_str LL_warn = str ''warn''"
| "LogLevel_str LL_error = str ''error''"

text \<open>\<open>Array.prototype.indexOf\<close>: the first index of the element, \<open>-1\<close> when absent.\<close>

fun indexOf_from :: "int \<Rightarrow> 'a list \<Rightarrow> 'a \<Rightarrow> int" where
  "indexOf_from i [] x = - 1"
| "indexOf_from i (y # ys) x = (if y = x then i else indexOf_from (i + 1) ys x)"

definition indexOf :: "'a list \<Rightarrow> 'a \<Rightarrow> int" where
  "indexOf xs x = indexOf_from 0 xs x"

definition levels :: "LogLevel list" where
  "levels = [LL_debug, LL_info, LL_warn, LL_error]"

text \<open>
  \<open>String.prototype.toUpperCase\<close> on the strings it is applied to here, the four level
  names: an ASCII lower-case letter becomes the upper-case one.
\<close>

definition toUpperCase_ascii :: "jsstring \<Rightarrow> jsstring" where
  "toUpperCase_ascii s = map (\<lambda>c. if 0x61 \<le> c \<and> c \<le> 0x7A then c - 0x20 else c) s"

text \<open>
  The logger's state is the closure variable \<open>currentLevel\<close>; the calls it makes on the
  global \<open>console\<close> are recorded in order, each with the console method and the text.
\<close>

record ConsoleLogger =
  currentLevel :: LogLevel
  console :: "(LogLevel \<times> jsstring) list"

text \<open>
  What a call reads from its environment: the clock's \<open>new Date().toISOString()\<close> and
  \<open>JSON.stringify\<close>.
\<close>

record log_env =
  timestamp :: jsstring
  stringify :: "jsval \<Rightarrow> jsstring"

definition createConsoleLogger :: "LogLevel option \<Rightarrow> ConsoleLogger" where
  "createConsoleLogger minLevel =
     \<lparr>currentLevel = (case minLevel of None \<Rightarrow> LL_info | Some l \<Rightarrow> l), console = []\<rparr>"

definition shouldLog :: "ConsoleLogger \<Rightarrow> LogLevel \<Rightarrow> bool" where
  "shouldLog lg level = (indexOf levels level \<ge> indexOf levels (currentLevel lg))"

definition formatMessage ::
  "log_env \<Rightarrow> LogLevel \<Rightarrow> jsstring \<Rightarrow> jsstring \<Rightarrow> jsval \<Rightarrow> jsstring" where
  "formatMessage env level component message data =
     (let dataStr = (if data \<noteq> JUndefined then str '' '' @ stringify env data else [])
      in str ''['' @ timestamp env @ str ''] ['' @ toUpperCase_ascii (LogLevel_str level)
         @ str ''] ['' @ component @ str ''] '' @ message @ dataStr)"

definition debug ::
  "log_env \<Rightarrow> jsstring \<Rightarrow> jsstring \<Rightarrow> jsval \<Rightarrow> ConsoleLogger \<Rightarrow> ConsoleLogger" where
  "debug env component message data lg =
     (if shouldLog lg LL_debug
      then lg\<lparr>console := console lg @ [(LL_debug, formatMessage env LL_debug component message data)]\<rparr>
      else lg)"

definition info ::
  "log_env \<Rightarrow> jsstring \<Rightarrow> jsstring \<Rightarrow> jsval \<Rightarrow> ConsoleLogger \<Rightarrow> ConsoleLogger" where
  "info env component message data lg =
     (if shouldLog lg LL_info
      then lg\<lparr>console := console lg @ [(LL_info, formatMessage env LL_info component message data)]\<rparr>
      else lg)"

definition warn ::
  "log_env \<Rightarrow> jsstring \<Rightarrow> jsstring \<Rightarrow> jsval \<Rightarrow> ConsoleLogger \<Rightarrow> ConsoleLogger" where
  "warn env component message data lg =
     (if shouldLog lg LL_warn
      then lg\<lparr>console := console lg @ [(LL_warn, formatMessage env LL_warn component message data)]\<rparr>
      else lg)"

definition error ::
  "log_env \<Rightarrow> jsstring \<Rightarrow> jsstring \<Rightarrow> jsval \<Rightarrow> ConsoleLogger \<Rightarrow> ConsoleLogger" where
  "error env component message data lg =
     (if shouldLog lg LL_error
      then lg\<lparr>console := console lg @ [(LL_error, formatMessage env LL_error component message data)]\<rparr>
      else lg)"

definition setLevel :: "LogLevel \<Rightarrow> ConsoleLogger \<Rightarrow> ConsoleLogger" where
  "setLevel level lg = lg\<lparr>currentLevel := level\<rparr>"

definition getLevel :: "ConsoleLogger \<Rightarrow> LogLevel" where
  "getLevel lg = currentLevel lg"

text \<open>A call on the logger: one of the four severity methods, or \<open>setLevel\<close>.\<close>

datatype logger_call =
    Call_log LogLevel log_env jsstring jsstring jsval
  | Call_setLevel LogLevel

fun logAt ::
  "LogLevel \<Rightarrow> log_env \<Rightarrow> jsstring \<Rightarrow> jsstring \<Rightarrow> jsval \<Rightarrow> ConsoleLogger \<Rightarrow> ConsoleLogger" where
  "logAt LL_debug = debug"
| "logAt LL_info = info"
| "logAt LL_warn = warn"
| "logAt LL_error = error"

fun logger_step :: "ConsoleLogger \<Rightarrow> logger_call \<Rightarrow> ConsoleLogger" where
  "logger_step lg (Call_log S env c m d) = logAt S env c m d lg"
| "logger_step lg (Call_setLevel L) = setLevel L lg"

definition logger_run :: "ConsoleLogger \<Rightarrow> logger_call list \<Rightarrow> ConsoleLogger" where
  "logger_run lg calls = foldl logger_step lg calls"

text \<open>The levels given to \<open>setLevel\<close> in a sequence of calls, in order.\<close>

fun levels_set :: "logger_call list \<Rightarrow> LogLevel list" where
  "levels_set [] = []"
| "levels_set (Call_setLevel L # cs) = L # levels_set cs"
| "levels_set (Call_log S env c m d # cs) = levels_set cs"

section \<open>More of the JavaScript library\<close>

text \<open>
  The code units that \<open>String.prototype.trim\<close>, the regular expression class \<open>\s\<close> and
  the number parsers treat as white space: ECMAScript's WhiteSpace and LineTerminator.
\<close>

definition isWhiteSpace :: "16 word \<Rightarrow> bool" where
  "isWhiteSpace c =
     (c \<in> set [0x09, 0x0A, 0x0B, 0x0C, 0x0D, 0x20, 0xA0, 0x1680,
                0x2000, 0x2001, 0x2002, 0x2003, 0x2004, 0x2005, 0x2006, 0x2007, 0x2008,
                0x2009, 0x200A, 0x2028, 0x2029, 0x202F, 0x205F, 0x3000, 0xFEFF])"


definition isDigit :: "16 word \<Rightarrow> bool" where
  "isDigit c = (0x30 \<le> c \<and> c \<le> 0x39)"

definition digitsValue :: "jsstring \<Rightarrow> nat" where
  "digitsValue Z = foldl (\<lambda>a c. 10 * a + unat (c - 0x30)) 0 Z"

fun bitlen :: "nat \<Rightarrow> nat" where
  "bitlen n = (if n = 0 then 0 else Suc (bitlen (n div 2)))"

declare bitlen.simps [simp del]

text \<open>
  The Number value for a natural number: exact below \<open>2^53\<close>, otherwise rounded to 53
  significant bits, ties to even, and \<open>Infinity\<close> when the rounded value reaches
  \<open>2^1024\<close>.
\<close>

definition NumberValue :: "nat \<Rightarrow> number" where
  "NumberValue n =
     (if n < 2 ^ 53 then Fin (of_nat n)
      else
        (let e = bitlen n - 53;
             q = n div 2 ^ e;
             r = n mod 2 ^ e;
             h = 2 ^ (e - 1);
             q' = (if r > h \<or> (r = h \<and> odd q) then q + 1 else q);
             v = q' * 2 ^ e
         in if v \<ge> 2 ^ 1024 then PosInf else Fin (of_nat v)))"

fun negate :: "number \<Rightarrow> number" where
  "negate NaN = NaN"
| "negate NegInf = PosInf"
| "negate (Fin q) = Fin (- q)"
| "negate PosInf = NegInf"

text \<open>
  \<open>parseInt(s, 10)\<close>: leading white space is skipped, then an optional sign, then the
  longest run of decimal digits; no digit gives \<open>NaN\<close>. The value of the digits is taken
  exactly before it is rounded to a Number.
\<close>

definition parseInt10 :: "jsstring \<Rightarrow> number" where
  "parseInt10 s =
     (let S = dropWhile isWhiteSpace s;
          neg = (S \<noteq> [] \<and> hd S = 0x2D);
          S' = (if S \<noteq> [] \<and> (hd S = 0x2B \<or> hd S = 0x2D) then tl S else S);
          Z = takeWhile isDigit S'
      in if Z = [] then NaN
         else if neg then negate (NumberValue (digitsValue Z))
         else NumberValue (digitsValue Z))"

text \<open>The global \<open>isNaN\<close> and the comparison \<open>x > 0\<close> on numbers.\<close>

fun isNaN :: "number \<Rightarrow> bool" where
  "isNaN NaN = True"
| "isNaN x = False"

fun gt0 :: "number \<Rightarrow> bool" where
  "gt0 NaN = False"
| "gt0 NegInf = False"
| "gt0 (Fin q) = (q > 0)"
| "gt0 PosInf = True"

section \<open>Settings (settings/SettingsTab)\<close>

text \<open>
  Field names of the records carry a prefix where the bare name (\<open>id\<close>, \<open>name\<close>, ...)
  would clash: \<open>mcp_id\<close> is \<open>McpServerConfig.id\<close>.
\<close>

record McpServerConfig =
  mcp_id :: jsstring
  mcp_name :: jsstring
  mcp_command :: jsstring
  mcp_args :: "jsstring list"
  mcp_env :: "(jsstring \<times> jsstring) list option"
  mcp_enabled :: bool

record ClaudeCodeSettings =
  apiKey :: jsstring
  model :: jsstring
  autoApproveVaultReads :: bool
  autoApproveVaultWrites :: bool
  requireBashApproval :: bool
  alwaysAllowedTools :: "jsstring list"
  maxBudgetPerSession :: number
  maxTurns :: number
  mcpServers :: "McpServerConfig list option"

text \<open>
  The plugin as the settings tab sees it: the settings object, and the calls of
  \<open>saveSettings()\<close>, each recorded with the settings it was made on.
\<close>

record Plugin =
  settings :: ClaudeCodeSettings
  saveCalls :: "ClaudeCodeSettings list"

definition saveSettings :: "Plugin \<Rightarrow> Plugin" where
  "saveSettings p = p\<lparr>saveCalls := saveCalls p @ [settings p]\<rparr>"

text \<open>The click handler of the remove button of the chip of \<open>tool\<close>.\<close>

definition removeAlwaysAllowed :: "jsstring \<Rightarrow> Plugin \<Rightarrow> Plugin" where
  "removeAlwaysAllowed tool p =
     saveSettings (p\<lparr>settings := (settings p)
       \<lparr>alwaysAllowedTools := filter (\<lambda>t. t \<noteq> tool) (alwaysAllowedTools (settings p))\<rparr>\<rparr>)"

text \<open>
  The \<open>onChange\<close> handlers of the two text fields. \<open>parseFloat\<close> is a parameter of the
  first.
\<close>

definition onMaxBudgetChange :: "(jsstring \<Rightarrow> number) \<Rightarrow> jsstring \<Rightarrow> Plugin \<Rightarrow> Plugin" where
  "onMaxBudgetChange parseFloat v p =
     (let parsed = parseFloat v
      in if \<not> isNaN parsed \<and> gt0 parsed
         then saveSettings (p\<lparr>settings := (settings p)\<lparr>maxBudgetPerSession := parsed\<rparr>\<rparr>)
         else p)"

definition onMaxTurnsChange :: "jsstring \<Rightarrow> Plugin \<Rightarrow> Plugin" where
  "onMaxTurnsChange v p =
     (let parsed = parseInt10 v
      in if \<not> isNaN parsed \<and> gt0 parsed
         then saveSettings (p\<lparr>settings := (settings p)\<lparr>maxTurns := parsed\<rparr>\<rparr>)
         else p)"

text \<open>A user edit of one of the two fields, and a sequence of edits.\<close>

datatype edit = EditBudget jsstring | EditTurns jsstring

fun applyEdit :: "(jsstring \<Rightarrow> number) \<Rightarrow> Plugin \<Rightarrow> edit \<Rightarrow> Plugin" where
  "applyEdit parseFloat p (EditBudget v) = onMaxBudgetChange parseFloat v p"
| "applyEdit parseFloat p (EditTurns v) = onMaxTurnsChange v p"

definition applyEdits :: "(jsstring \<Rightarrow> number) \<Rightarrow> Plugin \<Rightarrow> edit list \<Rightarrow> Plugin" where
  "applyEdits parseFloat p es = foldl (applyEdit parseFloat) p es"

text \<open>A number that is a positive integer.\<close>

fun isPositiveInteger :: "number \<Rightarrow> bool" where
  "isPositiveInteger (Fin q) = (q > 0 \<and> of_int \<lfloor>q\<rfloor> = q)"
| "isPositiveInteger x = False"

subsection \<open>The MCP server modal\<close>












text \<open>
  The two callbacks the settings tab passes as \<open>onSave\<close>: for a new server, and for the
  server at position \<open>i\<close> of the list (\<open>Object.assign(server, updated)\<close> writes all six
  keys of \<open>updated\<close>).
\<close>

definition onSave_add :: "McpServerConfig \<Rightarrow> Plugin \<Rightarrow> Plugin" where
  "onSave_add srv p =
     saveSettings (p\<lparr>settings := (settings p)
       \<lparr>mcpServers := Some ((case mcpServers (settings p) of None \<Rightarrow> [] | Some l \<Rightarrow> l) @ [srv])\<rparr>\<rparr>)"




text \<open>A plugin state used in the examples below.\<close>

definition example_settings :: ClaudeCodeSettings where
  "example_settings =
     \<lparr>apiKey = [], model = str ''sonnet'', autoApproveVaultReads = True,
      autoApproveVaultWrites = False, requireBashApproval = True,
      alwaysAllowedTools = [str ''Bash'', str ''Read'', str ''Bash'', str ''Write''],
      maxBudgetPerSession = Fin 10, maxTurns = Fin 50, mcpServers = None\<rparr>"

definition example_plugin :: Plugin where
  "example_plugin = \<lparr>settings = example_settings, saveCalls = []\<rparr>"






section \<open>Tool call display (views/ToolCallDisplay)\<close>

record SubagentProgress =
  sp_message :: "jsstring option"
  sp_startTime :: "number option"

text \<open>
  \<open>ToolCall\<close>, with the fields the display reads. An optional field that is absent or
  \<open>undefined\<close> is \<open>None\<close> (\<open>JUndefined\<close> for the output).
\<close>

record ToolCall =
  tc_id :: jsstring
  tc_name :: jsstring
  tc_input :: jsrecord
  tc_status :: ToolStatus
  tc_output :: jsval
  tc_error :: "jsstring option"
  tc_startTime :: number
  tc_endTime :: "number option"
  tc_isSubagent :: "bool option"
  tc_subagentStatus :: "SubagentStatus option"
  tc_subagentProgress :: "SubagentProgress option"

text \<open>
  \<open>Partial<ToolCall>\<close>: every key may be absent (\<open>None\<close>). A key of an optional field may
  also be present with the value \<open>undefined\<close> (\<open>Some None\<close>).
\<close>

record ToolCallUpdates =
  u_id :: "jsstring option"
  u_name :: "jsstring option"
  u_input :: "jsrecord option"
  u_status :: "ToolStatus option"
  u_output :: "jsval option"
  u_error :: "jsstring option option"
  u_startTime :: "number option"
  u_endTime :: "number option option"
  u_isSubagent :: "bool option option"
  u_subagentStatus :: "SubagentStatus option option"
  u_subagentProgress :: "SubagentProgress option option"

definition no_updates :: ToolCallUpdates where
  "no_updates =
     \<lparr>u_id = None, u_name = None, u_input = None, u_status = None, u_output = None,
      u_error = None, u_startTime = None, u_endTime = None, u_isSubagent = None,
      u_subagentStatus = None, u_subagentProgress = None\<rparr>"

text \<open>\<open>Object.assign(target, updates)\<close>: every key of \<open>updates\<close> is written to the target.\<close>

definition assignKey :: "'a \<Rightarrow> 'a option \<Rightarrow> 'a" where
  "assignKey old new = (case new of None \<Rightarrow> old | Some v \<Rightarrow> v)"

definition Object_assign :: "ToolCall \<Rightarrow> ToolCallUpdates \<Rightarrow> ToolCall" where
  "Object_assign tc u =
     \<lparr>tc_id = assignKey (tc_id tc) (u_id u),
      tc_name = assignKey (tc_name tc) (u_name u),
      tc_input = assignKey (tc_input tc) (u_input u),
      tc_status = assignKey (tc_status tc) (u_status u),
      tc_output = assignKey (tc_output tc) (u_output u),
      tc_error = assignKey (tc_error tc) (u_error u),
      tc_startTime = assignKey (tc_startTime tc) (u_startTime u),
      tc_endTime = assignKey (tc_endTime tc) (u_endTime u),
      tc_isSubagent = assignKey (tc_isSubagent tc) (u_isSubagent u),
      tc_subagentStatus = assignKey (tc_subagentStatus tc) (u_subagentStatus u),
      tc_subagentProgress = assignKey (tc_subagentProgress tc) (u_subagentProgress u)\<rparr>"

text \<open>
  The display: the tool call it shows, whether it is expanded, and what \<open>render()\<close>
  last drew of the status (the rest of the DOM is left out).
\<close>

record Rendered =
  r_subagentTask :: bool
  r_collapsed :: bool
  r_statusClass :: jsstring
  r_statusText :: jsstring
  r_progressShown :: bool

record ToolCallDisplay =
  toolCall :: ToolCall
  isExpanded :: bool
  rendered :: "Rendered option"

definition truthy_flag :: "bool option \<Rightarrow> bool" where
  "truthy_flag b = (case b of None \<Rightarrow> False | Some v \<Rightarrow> v)"

definition render :: "ToolCallDisplay \<Rightarrow> ToolCallDisplay" where
  "render d =
     (let tc = toolCall d in
      d\<lparr>rendered := Some
        \<lparr>r_subagentTask = truthy_flag (tc_isSubagent tc),
         r_collapsed = (\<not> isExpanded d),
         r_statusClass =
           getToolStatusClass (tc_status tc) (truthy_flag (tc_isSubagent tc)) (tc_subagentStatus tc),
         r_statusText =
           getToolStatusText (tc_status tc) (truthy_flag (tc_isSubagent tc)) (tc_subagentStatus tc),
         r_progressShown =
           (truthy_flag (tc_isSubagent tc) \<and> isSubagentRunning (tc_subagentStatus tc))\<rparr>\<rparr>)"

definition update :: "ToolCallUpdates \<Rightarrow> ToolCallDisplay \<Rightarrow> ToolCallDisplay" where
  "update updates d = render (d\<lparr>toolCall := Object_assign (toolCall d) updates\<rparr>)"

text \<open>A sequence of calls of \<open>update\<close>, and the statuses the updates carry, in order.\<close>

definition update_all :: "ToolCallUpdates list \<Rightarrow> ToolCallDisplay \<Rightarrow> ToolCallDisplay" where
  "update_all us d = foldl (\<lambda>d u. update u d) d us"

definition statuses_carried :: "ToolCallUpdates list \<Rightarrow> ToolStatus list" where
  "statuses_carried us = concat (map (\<lambda>u. case u_status u of None \<Rightarrow> [] | Some s \<Rightarrow> [s]) us)"

definition example_toolCall :: ToolCall where
  "example_toolCall =
     \<lparr>tc_id = str ''toolu_1'', tc_name = str ''Read'', tc_input = Map.empty,
      tc_status = TS_success, tc_output = JStr (str ''ok''), tc_error = None,
      tc_startTime = Fin 1000, tc_endTime = Some (Fin 1200), tc_isSubagent = None,
      tc_subagentStatus = None, tc_subagentProgress = None\<rparr>"

definition example_display :: ToolCallDisplay where
  "example_display = \<lparr>toolCall = example_toolCall, isExpanded = False, rendered = None\<rparr>"

section \<open>Autocomplete popup (views/AutocompletePopup)\<close>

text \<open>\<open>s.includes(q)\<close>: \<open>q\<close> occurs in \<open>s\<close> as a substring.\<close>

fun includes_str :: "jsstring \<Rightarrow> jsstring \<Rightarrow> bool" where
  "includes_str [] q = (q = [])"
| "includes_str (c # cs) q = (startsWith (c # cs) q \<or> includes_str cs q)"

text \<open>
  A vault file as the popup reads it: \<open>f_parent\<close> is \<open>f.parent?.path\<close>, \<open>None\<close> when the
  file has no parent.
\<close>

record TFile =
  f_path :: jsstring
  f_basename :: jsstring
  f_parent :: "jsstring option"

datatype SuggestionType = Command | File

record Suggestion =
  s_type :: SuggestionType
  s_value :: jsstring
  s_label :: jsstring
  s_description :: jsstring
  s_icon :: "jsstring option"

text \<open>
  What the popup reads from outside: \<open>String.prototype.toLowerCase\<close>, the vault's
  \<open>getMarkdownFiles()\<close>, and \<open>filterCommands(SLASH_COMMANDS, query)\<close> of
  \<open>utils/autocomplete\<close>.
\<close>

record popup_env =
  toLowerCase :: "jsstring \<Rightarrow> jsstring"
  getMarkdownFiles :: "TFile list"
  filterCommands :: "jsstring \<Rightarrow> Suggestion list"

text \<open>
  The popup: \<open>containerEl\<close> is the element attached to the document, with the items
  drawn in it and which of them carries the class \<open>selected\<close>.
\<close>

record AutocompletePopup =
  containerEl :: "(Suggestion \<times> bool) list option"
  suggestions :: "Suggestion list"
  selectedIndex :: nat
  visible :: bool

definition new_popup :: AutocompletePopup where
  "new_popup = \<lparr>containerEl = None, suggestions = [], selectedIndex = 0, visible = False\<rparr>"

definition getCommandSuggestions :: "popup_env \<Rightarrow> jsstring \<Rightarrow> Suggestion list" where
  "getCommandSuggestions env query = filterCommands env query"

definition getFileSuggestions :: "popup_env \<Rightarrow> jsstring \<Rightarrow> Suggestion list" where
  "getFileSuggestions env query =
     (let q = toLowerCase env query;
          files = getMarkdownFiles env
      in map (\<lambda>f. \<lparr>s_type = File, s_value = f_path f, s_label = f_basename f,
                    s_description = (case f_parent f of None \<Rightarrow> [] | Some d \<Rightarrow> d),
                    s_icon = Some (str ''file-text'')\<rparr>)
           (take 10
             (filter (\<lambda>f. includes_str (toLowerCase env (f_path f)) q
                          \<or> includes_str (toLowerCase env (f_basename f)) q) files)))"

definition getSuggestions :: "popup_env \<Rightarrow> SuggestionType \<Rightarrow> jsstring \<Rightarrow> Suggestion list" where
  "getSuggestions env type query =
     (if type = Command then getCommandSuggestions env query
      else getFileSuggestions env query)"

definition hide :: "AutocompletePopup \<Rightarrow> AutocompletePopup" where
  "hide p = (if containerEl p \<noteq> None then p\<lparr>containerEl := None\<rparr> else p)\<lparr>visible := False\<rparr>"

definition isVisible :: "AutocompletePopup \<Rightarrow> bool" where
  "isVisible p = visible p"

text \<open>
  \<open>render(anchorEl)\<close> first calls \<open>hide()\<close>, then builds the element with one item for
  each suggestion and appends it to the document. The anchor only positions it.
\<close>

definition render_popup :: "AutocompletePopup \<Rightarrow> AutocompletePopup" where
  "render_popup p =
     (let p1 = hide p
      in p1\<lparr>containerEl :=
           Some (map (\<lambda>(i, s). (s, i = selectedIndex p1))
                  (zip [0 ..< length (suggestions p1)] (suggestions p1)))\<rparr>)"

definition show_popup ::
  "popup_env \<Rightarrow> SuggestionType \<Rightarrow> jsstring \<Rightarrow> AutocompletePopup \<Rightarrow> AutocompletePopup" where
  "show_popup env type query p =
     (let p1 = p\<lparr>suggestions := getSuggestions env type query\<rparr>
      in if length (suggestions p1) = 0 then hide p1
         else render_popup (p1\<lparr>selectedIndex := 0, visible := True\<rparr>))"

text \<open>\<open>toLowerCase\<close> on ASCII strings, and a vault with two notes, for the examples.\<close>

definition toLowerCase_ascii :: "jsstring \<Rightarrow> jsstring" where
  "toLowerCase_ascii s = map (\<lambda>c. if 0x41 \<le> c \<and> c \<le> 0x5A then c + 0x20 else c) s"

definition example_env :: popup_env where
  "example_env =
     \<lparr>toLowerCase = toLowerCase_ascii,
      getMarkdownFiles =
        [\<lparr>f_path = str ''notes/Ark.md'', f_basename = str ''Ark'', f_parent = Some (str ''notes'')\<rparr>,
         \<lparr>f_path = str ''todo.md'', f_basename = str ''todo'', f_parent = Some (str ''/'')\<rparr>],
      filterCommands = (\<lambda>q. [])\<rparr>"

section \<open>Properties of the tool display functions\<close>

lemma subagentStatus_truthy_Some [simp]: "subagentStatus_truthy (Some s)"
  by (cases s) (simp_all add: subagentStatus_truthy_def str_def)

lemma subagentStatus_truthy_None [simp]: "\<not> subagentStatus_truthy None"
  by (simp add: subagentStatus_truthy_def)

text \<open>
  C2: a tool call is a subagent (delegation) call exactly when its name is \<open>Task\<close>;
  \<open>Skill\<close> and every name with the prefix \<open>mcp__\<close> are not.
\<close>

theorem isSubagentTool_iff_Task:
  "isSubagentTool n = (n = str ''Task'')
   \<and> \<not> isSubagentTool (str ''Skill'')
   \<and> \<not> isSubagentTool (str ''mcp__'' @ rest)"
  by (simp add: isSubagentTool_def str_def)

text \<open>
  C3: the subagent statuses are exactly the six named ones, and a subagent is running
  exactly in the states starting, running and thinking; it is not running in a terminal
  state nor when the status is undefined.
\<close>

theorem isSubagentRunning_iff_nonterminal:
  "(UNIV :: SubagentStatus set) =
     {SA_starting, SA_running, SA_thinking, SA_completed, SA_interrupted, SA_error}
   \<and> isSubagentRunning (Some s) = (s \<in> {SA_starting, SA_running, SA_thinking})
   \<and> \<not> isSubagentRunning (Some SA_completed)
   \<and> \<not> isSubagentRunning (Some SA_interrupted)
   \<and> \<not> isSubagentRunning (Some SA_error)
   \<and> \<not> isSubagentRunning None"
proof -
  have "(UNIV :: SubagentStatus set) =
     {SA_starting, SA_running, SA_thinking, SA_completed, SA_interrupted, SA_error}"
  proof (rule set_eqI)
    fix x :: SubagentStatus
    show "x \<in> UNIV \<longleftrightarrow>
      x \<in> {SA_starting, SA_running, SA_thinking, SA_completed, SA_interrupted, SA_error}"
      by (cases x) simp_all
  qed
  then show ?thesis
    by (simp add: isSubagentRunning_def)
qed


lemma startsWith_iff: "startsWith s p \<longleftrightarrow> (\<exists>rest. s = p @ rest)"
proof
  assume "startsWith s p"
  then have "s = p @ drop (length p) s"
    by (metis append_take_drop_id startsWith_def)
  then show "\<exists>rest. s = p @ rest" ..
next
  assume "\<exists>rest. s = p @ rest"
  then show "startsWith s p"
    by (auto simp: startsWith_def)
qed

lemma replaceFirst_at_start: "replaceFirst p r (p @ rest) = r @ rest"
proof (cases "p @ rest")
  case Nil
  then show ?thesis by simp
next
  case (Cons c cs)
  have "replaceFirst p r (c # cs) =
     (if take (length p) (p @ rest) = p then r @ drop (length p) (p @ rest)
      else c # replaceFirst p r cs)"
    by (simp add: Cons)
  then have "replaceFirst p r (c # cs) = r @ rest"
    by simp
  with Cons show ?thesis by simp
qed

lemma mcp_obsidian_not_special:
  "str ''mcp__obsidian__'' @ rest \<noteq> str ''Skill''"
  "str ''mcp__obsidian__'' @ rest \<noteq> str ''Task''"
  by (simp_all add: str_def)

lemma collect_strings:
  "collect (map (\<lambda>x. if x = JUndefined \<or> x = JNull then Inr [] else ToString nts x)
      (map JStr ss)) = Inr ss"
  by (induction ss) simp_all

text \<open>
  C8 as stated fails: for the name \<open>Skill\<close> and the truthy input
  \<open>{"skill": {"toString": "x"}}\<close> the template literal cannot convert the skill to
  a string, and no display name is returned.
\<close>

theorem getToolDisplayName_throws_counterexample:
  "ToBoolean (getProp [str ''skill'' \<mapsto> JObj [(str ''toString'', JStr (str ''x''))]] ''skill'')
   \<and> getToolDisplayName (\<lambda>n. []) (str ''Skill'')
        [str ''skill'' \<mapsto> JObj [(str ''toString'', JStr (str ''x''))]] = Inl TypeError"
  by (simp add: getToolDisplayName_def getProp_def)

text \<open>
  C8, amended: for a name with the prefix \<open>mcp__obsidian__\<close> the display name is the
  rest of the name with every underscore replaced by a space; \<open>Skill\<close> with a truthy
  \<open>input.skill\<close> that converts to a string gives \<open>Skill: \<close> followed by that string,
  \<open>Task\<close> with a truthy \<open>input.subagent_type\<close> that converts to a string gives
  \<open>Task: \<close> followed by that string; every other name (those of other \<open>mcp__\<close>
  namespaces included, and \<open>Skill\<close> or \<open>Task\<close> without that input) is returned
  unchanged. A string converts to itself, a number to its rendering, a boolean to
  \<open>true\<close> or \<open>false\<close>, an array of strings to the strings joined by commas, and an
  object without an own key \<open>toString\<close> to \<open>[object Object]\<close>.
\<close>

theorem getToolDisplayName_cases:
  "getToolDisplayName nts (str ''mcp__obsidian__'' @ rest) input =
     Inr (map (\<lambda>c. if c = 0x5F then 0x20 else c) rest)
   \<and> (ToBoolean (getProp input ''skill'') \<and> ToString nts (getProp input ''skill'') = Inr s \<longrightarrow>
        getToolDisplayName nts (str ''Skill'') input = Inr (str ''Skill: '' @ s))
   \<and> (ToBoolean (getProp input ''subagent_type'')
        \<and> ToString nts (getProp input ''subagent_type'') = Inr s \<longrightarrow>
        getToolDisplayName nts (str ''Task'') input = Inr (str ''Task: '' @ s))
   \<and> (\<not> (name = str ''Skill'' \<and> ToBoolean (getProp input ''skill''))
        \<and> \<not> (name = str ''Task'' \<and> ToBoolean (getProp input ''subagent_type''))
        \<and> \<not> startsWith name (str ''mcp__obsidian__'') \<longrightarrow>
        getToolDisplayName nts name input = Inr name)
   \<and> ToString nts (JStr t) = Inr t
   \<and> ToString nts (JNum n) = Inr (nts n)
   \<and> ToString nts (JBool b) = Inr (if b then str ''true'' else str ''false'')
   \<and> ToString nts (JArr (map JStr ss)) = Inr (join (str '','') ss)
   \<and> (str ''toString'' \<notin> set (map fst kvs) \<longrightarrow>
        ToString nts (JObj kvs) = Inr (str ''[object Object]''))"
proof (intro conjI impI)
  have "startsWith (str ''mcp__obsidian__'' @ rest) (str ''mcp__obsidian__'')"
    by (simp add: startsWith_def)
  then show "getToolDisplayName nts (str ''mcp__obsidian__'' @ rest) input =
     Inr (map (\<lambda>c. if c = 0x5F then 0x20 else c) rest)"
    unfolding getToolDisplayName_def
    by (simp only: mcp_obsidian_not_special replaceFirst_at_start replaceUnderscores_def
        simp_thms if_True if_False append_Nil)
next
  assume "ToBoolean (getProp input ''skill'') \<and> ToString nts (getProp input ''skill'') = Inr s"
  then show "getToolDisplayName nts (str ''Skill'') input = Inr (str ''Skill: '' @ s)"
    by (simp add: getToolDisplayName_def)
next
  assume "ToBoolean (getProp input ''subagent_type'')
        \<and> ToString nts (getProp input ''subagent_type'') = Inr s"
  moreover have "str ''Task'' \<noteq> str ''Skill''"
    by (simp add: str_def)
  ultimately show "getToolDisplayName nts (str ''Task'') input = Inr (str ''Task: '' @ s)"
    by (simp add: getToolDisplayName_def)
next
  assume "\<not> (name = str ''Skill'' \<and> ToBoolean (getProp input ''skill''))
        \<and> \<not> (name = str ''Task'' \<and> ToBoolean (getProp input ''subagent_type''))
        \<and> \<not> startsWith name (str ''mcp__obsidian__'')"
  then show "getToolDisplayName nts name input = Inr name"
    by (auto simp add: getToolDisplayName_def)
next
  show "ToString nts (JArr (map JStr ss)) = Inr (join (str '','') ss)"
    by (simp only: ToString.simps collect_strings sum.case)
next
  assume "str ''toString'' \<notin> set (map fst kvs)"
  then show "ToString nts (JObj kvs) = Inr (str ''[object Object]'')"
    by simp
qed simp_all

theorem getToolDisplayName_cases_witness:
  "getToolDisplayName (\<lambda>n. if n = Fin 42 then str ''42'' else [])
      (str ''mcp__obsidian__read_file'') Map.empty = Inr (str ''read file'')
   \<and> getToolDisplayName (\<lambda>n. if n = Fin 42 then str ''42'' else []) (str ''Skill'')
       [str ''skill'' \<mapsto> JStr (str ''commit'')] = Inr (str ''Skill: commit'')
   \<and> getToolDisplayName (\<lambda>n. if n = Fin 42 then str ''42'' else []) (str ''Task'')
       [str ''subagent_type'' \<mapsto> JStr (str ''Explore'')] = Inr (str ''Task: Explore'')
   \<and> getToolDisplayName (\<lambda>n. if n = Fin 42 then str ''42'' else []) (str ''Task'')
       [str ''subagent_type'' \<mapsto> JNum (Fin 42)] = Inr (str ''Task: 42'')
   \<and> getToolDisplayName (\<lambda>n. if n = Fin 42 then str ''42'' else []) (str ''Skill'')
       [str ''skill'' \<mapsto> JBool True] = Inr (str ''Skill: true'')
   \<and> getToolDisplayName (\<lambda>n. if n = Fin 42 then str ''42'' else []) (str ''Skill'')
       [str ''skill'' \<mapsto> JArr [JStr (str ''a''), JNull, JArr [JStr (str ''b''), JBool False]]]
       = Inr (str ''Skill: a,,b,false'')
   \<and> getToolDisplayName (\<lambda>n. if n = Fin 42 then str ''42'' else []) (str ''Skill'')
       [str ''skill'' \<mapsto> JObj [(str ''name'', JStr (str ''commit''))]]
       = Inr (str ''Skill: [object Object]'')
   \<and> \<not> startsWith (str ''mcp__github__list_issues'') (str ''mcp__obsidian__'')
   \<and> getToolDisplayName (\<lambda>n. if n = Fin 42 then str ''42'' else [])
        (str ''mcp__github__list_issues'') Map.empty = Inr (str ''mcp__github__list_issues'')
   \<and> getToolDisplayName (\<lambda>n. if n = Fin 42 then str ''42'' else []) (str ''Skill'') Map.empty
       = Inr (str ''Skill'')"
proof -
  let ?nts = "\<lambda>n. if n = Fin 42 then str ''42'' else []"
  note prefix_case = getToolDisplayName_cases [THEN conjunct1]
  note skill_case = getToolDisplayName_cases [THEN conjunct2, THEN conjunct1, rule_format]
  note task_case =
    getToolDisplayName_cases [THEN conjunct2, THEN conjunct2, THEN conjunct1, rule_format]
  note other_case = getToolDisplayName_cases
    [THEN conjunct2, THEN conjunct2, THEN conjunct2, THEN conjunct1, rule_format]
  have split: "str ''mcp__obsidian__read_file'' = str ''mcp__obsidian__'' @ str ''read_file''"
    by (simp add: str_def)
  have a: "getToolDisplayName ?nts (str ''mcp__obsidian__read_file'') Map.empty
      = Inr (str ''read file'')"
    unfolding split using prefix_case [of ?nts "str ''read_file''" Map.empty]
    by (simp add: str_def)
  have b: "getToolDisplayName ?nts (str ''Skill'') [str ''skill'' \<mapsto> JStr (str ''commit'')]
      = Inr (str ''Skill: commit'')"
    using skill_case [of "[str ''skill'' \<mapsto> JStr (str ''commit'')]" ?nts "str ''commit''"]
    by (simp add: getProp_def str_def)
  have c: "getToolDisplayName ?nts (str ''Task'') [str ''subagent_type'' \<mapsto> JStr (str ''Explore'')]
      = Inr (str ''Task: Explore'')"
    using task_case
      [of "[str ''subagent_type'' \<mapsto> JStr (str ''Explore'')]" ?nts "str ''Explore''"]
    by (simp add: getProp_def str_def)
  have d: "getToolDisplayName ?nts (str ''Task'') [str ''subagent_type'' \<mapsto> JNum (Fin 42)]
      = Inr (str ''Task: 42'')"
    using task_case [of "[str ''subagent_type'' \<mapsto> JNum (Fin 42)]" ?nts "str ''42''"]
    by (simp add: getProp_def str_def)
  have e: "getToolDisplayName ?nts (str ''Skill'') [str ''skill'' \<mapsto> JBool True]
      = Inr (str ''Skill: true'')"
    using skill_case [of "[str ''skill'' \<mapsto> JBool True]" ?nts "str ''true''"]
    by (simp add: getProp_def str_def)
  have f: "getToolDisplayName ?nts (str ''Skill'')
       [str ''skill'' \<mapsto> JArr [JStr (str ''a''), JNull, JArr [JStr (str ''b''), JBool False]]]
       = Inr (str ''Skill: a,,b,false'')"
    using skill_case
      [of "[str ''skill'' \<mapsto> JArr [JStr (str ''a''), JNull, JArr [JStr (str ''b''), JBool False]]]"
        ?nts "str ''a,,b,false''"]
    by (simp add: getProp_def str_def)
  have g: "getToolDisplayName ?nts (str ''Skill'')
       [str ''skill'' \<mapsto> JObj [(str ''name'', JStr (str ''commit''))]]
       = Inr (str ''Skill: [object Object]'')"
    using skill_case
      [of "[str ''skill'' \<mapsto> JObj [(str ''name'', JStr (str ''commit''))]]"
        ?nts "str ''[object Object]''"]
    by (simp add: getProp_def str_def)
  have other: "\<not> startsWith (str ''mcp__github__list_issues'') (str ''mcp__obsidian__'')"
    "str ''mcp__github__list_issues'' \<noteq> str ''Skill''"
    "str ''mcp__github__list_issues'' \<noteq> str ''Task''"
    "\<not> startsWith (str ''Skill'') (str ''mcp__obsidian__'')"
    "str ''Skill'' \<noteq> str ''Task''"
    "\<not> ToBoolean (getProp Map.empty ''skill'')"
    by (simp_all add: str_def startsWith_def getProp_def)
  have h: "getToolDisplayName ?nts (str ''mcp__github__list_issues'') Map.empty
      = Inr (str ''mcp__github__list_issues'')"
    using other_case [of "str ''mcp__github__list_issues''" Map.empty ?nts] other by blast
  have i: "getToolDisplayName ?nts (str ''Skill'') Map.empty = Inr (str ''Skill'')"
    using other_case [of "str ''Skill''" Map.empty ?nts] other by blast
  from a b c d e f g h i other(1) show ?thesis by blast
qed

text \<open>
  C9: when \<open>isSubagent\<close> is true and a subagent status is given, the status text and the
  status class are those of the subagent status, whatever the tool status is; when
  \<open>isSubagent\<close> is false or no subagent status is given, they are those of the tool
  status.
\<close>

theorem subagent_status_precedence:
  "getToolStatusText s True (Some a) = getToolStatusText s' True (Some a)
   \<and> getToolStatusText s True (Some a) =
       (case a of
          SA_starting \<Rightarrow> str ''starting...''
        | SA_running \<Rightarrow> str ''running...''
        | SA_thinking \<Rightarrow> str ''thinking...''
        | SA_completed \<Rightarrow> [0x2713]
        | SA_interrupted \<Rightarrow> 0x26A0 # str '' interrupted''
        | SA_error \<Rightarrow> [0x2717])
   \<and> getToolStatusClass s True (Some a) = SubagentStatus_str a
   \<and> (\<not> isSub \<or> sub = None \<longrightarrow>
        getToolStatusText s isSub sub =
          (case s of
             TS_pending \<Rightarrow> str ''pending''
           | TS_running \<Rightarrow> str ''running...''
           | TS_success \<Rightarrow> [0x2713]
           | TS_error \<Rightarrow> [0x2717])
        \<and> getToolStatusClass s isSub sub = ToolStatus_str s)"
  by (cases a; cases s)
    (auto simp: getToolStatusText_def getToolStatusClass_def check_mark_def ballot_x_def
      warning_sign_def)

theorem subagent_status_precedence_witness:
  "getToolStatusText TS_error True (Some SA_thinking)
     = getToolStatusText TS_pending True (Some SA_thinking)
   \<and> getToolStatusText TS_error True (Some SA_thinking) = str ''thinking...''
   \<and> getToolStatusClass TS_error True (Some SA_thinking) = str ''thinking''
   \<and> getToolStatusText TS_running False (Some SA_completed) = str ''running...''
   \<and> getToolStatusClass TS_running False (Some SA_completed) = str ''running''
   \<and> getToolStatusText TS_success True None = [0x2713]
   \<and> getToolStatusClass TS_success True None = str ''success''"
  using subagent_status_precedence [of TS_error SA_thinking TS_pending False "Some SA_completed"]
    subagent_status_precedence [of TS_running SA_thinking TS_pending False "Some SA_completed"]
    subagent_status_precedence [of TS_success SA_thinking TS_pending True None]
  unfolding SubagentStatus.case ToolStatus.case SubagentStatus_str.simps ToolStatus_str.simps
  by blast

section \<open>Properties of the console logger\<close>

lemma indexOf_levels:
  "indexOf levels LL_debug = 0" "indexOf levels LL_info = 1"
  "indexOf levels LL_warn = 2" "indexOf levels LL_error = 3"
  by (simp_all add: indexOf_def levels_def)

lemma getLevel_logAt: "getLevel (logAt S env c m d lg) = getLevel lg"
  by (cases S) (simp_all add: getLevel_def debug_def info_def warn_def error_def)

lemma getLevel_setLevel: "getLevel (setLevel L lg) = L"
  by (simp add: getLevel_def setLevel_def)

lemma logger_run_Cons: "logger_run lg (call # calls) = logger_run (logger_step lg call) calls"
  by (simp add: logger_run_def)

lemma getLevel_logger_run:
  "getLevel (logger_run lg calls) =
     (if levels_set calls = [] then getLevel lg else last (levels_set calls))"
proof (induction calls arbitrary: lg)
  case Nil
  then show ?case by (simp add: logger_run_def)
next
  case (Cons call calls)
  show ?case
  proof (cases call)
    case (Call_log S env c m d)
    then show ?thesis
      by (simp add: logger_run_Cons Cons.IH getLevel_logAt)
  next
    case (Call_setLevel L)
    then show ?thesis
      by (simp add: logger_run_Cons Cons.IH getLevel_setLevel)
  qed
qed

lemma console_logAt:
  "console (logAt S env c m d lg) =
     (if indexOf levels S \<ge> indexOf levels (currentLevel lg)
      then console lg @ [(S, formatMessage env S c m d)] else console lg)"
  by (cases S) (simp_all add: debug_def info_def warn_def error_def shouldLog_def)

text \<open>
  C4: with the level \<open>L\<close> set by \<open>setLevel\<close>, a call at severity \<open>S\<close> writes its message to
  the console exactly when the index of \<open>S\<close> in [debug, info, warn, error] is at least
  the index of \<open>L\<close>, and writes nothing otherwise; \<open>getLevel\<close> returns the level most
  recently set, and \<open>info\<close> for a logger created without a minimum level.
\<close>

theorem console_logger_level_filter:
  "indexOf levels LL_debug = 0 \<and> indexOf levels LL_info = 1
   \<and> indexOf levels LL_warn = 2 \<and> indexOf levels LL_error = 3
   \<and> console (logAt S env c m d (setLevel L lg)) =
       (if indexOf levels S \<ge> indexOf levels L
        then console lg @ [(S, formatMessage env S c m d)] else console lg)
   \<and> getLevel (setLevel L lg) = L
   \<and> getLevel (logAt S env c m d lg) = getLevel lg
   \<and> getLevel (logger_run lg calls) =
       (if levels_set calls = [] then getLevel lg else last (levels_set calls))
   \<and> getLevel (createConsoleLogger None) = LL_info
   \<and> getLevel (createConsoleLogger (Some L)) = L"
proof -
  have "console (logAt S env c m d (setLevel L lg)) =
       (if indexOf levels S \<ge> indexOf levels L
        then console lg @ [(S, formatMessage env S c m d)] else console lg)"
    by (simp add: console_logAt setLevel_def)
  moreover have "getLevel (setLevel L lg) = L"
    by (simp add: getLevel_def setLevel_def)
  moreover have "getLevel (createConsoleLogger None) = LL_info"
    "getLevel (createConsoleLogger (Some L)) = L"
    by (simp_all add: getLevel_def createConsoleLogger_def)
  ultimately show ?thesis
    using indexOf_levels getLevel_logAt [of S env c m d lg] getLevel_logger_run [of lg calls]
    by simp
qed

theorem console_logger_level_filter_witness:
  "console (logAt LL_info \<lparr>timestamp = str ''T'', stringify = (\<lambda>v. str ''{}'')\<rparr>
       (str ''Agent'') (str ''started'') JUndefined
       (setLevel LL_warn (createConsoleLogger None))) = []
   \<and> console (logAt LL_error \<lparr>timestamp = str ''T'', stringify = (\<lambda>v. str ''{}'')\<rparr>
       (str ''Agent'') (str ''failed'') JUndefined
       (setLevel LL_warn (createConsoleLogger None)))
     = [(LL_error, str ''[T] [ERROR] [Agent] failed'')]
   \<and> getLevel (logger_run (createConsoleLogger None)
        [Call_setLevel LL_debug,
         Call_log LL_info \<lparr>timestamp = str ''T'', stringify = (\<lambda>v. str ''{}'')\<rparr>
           (str ''Agent'') (str ''started'') JUndefined,
         Call_setLevel LL_error]) = LL_error"
  using console_logger_level_filter
      [of LL_info "\<lparr>timestamp = str ''T'', stringify = (\<lambda>v. str ''{}'')\<rparr>"
        "str ''Agent''" "str ''started''" JUndefined LL_warn "createConsoleLogger None"
        "[Call_setLevel LL_debug,
         Call_log LL_info \<lparr>timestamp = str ''T'', stringify = (\<lambda>v. str ''{}'')\<rparr>
           (str ''Agent'') (str ''started'') JUndefined,
         Call_setLevel LL_error]"]
    console_logger_level_filter
      [of LL_error "\<lparr>timestamp = str ''T'', stringify = (\<lambda>v. str ''{}'')\<rparr>"
        "str ''Agent''" "str ''failed''" JUndefined LL_warn "createConsoleLogger None" "[]"]
  by (simp add: createConsoleLogger_def formatMessage_def toUpperCase_ascii_def str_def)

section \<open>Properties of the settings tab\<close>

text \<open>
  C7: removing the tool \<open>t\<close> replaces the always-allowed list by its entries other than
  \<open>t\<close>: afterwards \<open>t\<close> is absent, every other entry is kept as often as before and in
  the same relative order, and no other field of the settings is changed.
\<close>

theorem removeAlwaysAllowed_frame:
  "alwaysAllowedTools (settings (removeAlwaysAllowed t p))
     = filter (\<lambda>u. u \<noteq> t) (alwaysAllowedTools (settings p))
   \<and> t \<notin> set (alwaysAllowedTools (settings (removeAlwaysAllowed t p)))
   \<and> (\<forall>u. u \<noteq> t \<longrightarrow>
         count_list (alwaysAllowedTools (settings (removeAlwaysAllowed t p))) u
           = count_list (alwaysAllowedTools (settings p)) u)
   \<and> subseq (alwaysAllowedTools (settings (removeAlwaysAllowed t p)))
        (alwaysAllowedTools (settings p))
   \<and> settings (removeAlwaysAllowed t p)
       = (settings p)\<lparr>alwaysAllowedTools :=
            alwaysAllowedTools (settings (removeAlwaysAllowed t p))\<rparr>"
proof -
  let ?old = "alwaysAllowedTools (settings p)"
  have new: "alwaysAllowedTools (settings (removeAlwaysAllowed t p))
      = filter (\<lambda>u. u \<noteq> t) ?old"
    by (simp add: removeAlwaysAllowed_def saveSettings_def)
  have count: "count_list (filter (\<lambda>u. u \<noteq> t) xs) u = count_list xs u" if "u \<noteq> t"
    for u and xs :: "jsstring list"
    using that by (induction xs) auto
  have frame: "settings (removeAlwaysAllowed t p)
       = (settings p)\<lparr>alwaysAllowedTools := filter (\<lambda>u. u \<noteq> t) ?old\<rparr>"
    by (simp add: removeAlwaysAllowed_def saveSettings_def)
  show ?thesis
    unfolding new using count frame by simp
qed

theorem removeAlwaysAllowed_frame_witness:
  "alwaysAllowedTools (settings (removeAlwaysAllowed (str ''Bash'') example_plugin))
     = [str ''Read'', str ''Write'']
   \<and> count_list (alwaysAllowedTools (settings (removeAlwaysAllowed (str ''Bash'') example_plugin)))
        (str ''Read'') = 1
   \<and> str ''Read'' \<noteq> str ''Bash''
   \<and> maxTurns (settings (removeAlwaysAllowed (str ''Bash'') example_plugin)) = Fin 50"
proof -
  have ne: "str ''Read'' \<noteq> str ''Bash''" "str ''Write'' \<noteq> str ''Bash''"
    by (simp_all add: str_def)
  note w = removeAlwaysAllowed_frame [of "str ''Bash''" example_plugin]
  have old: "alwaysAllowedTools (settings example_plugin)
      = [str ''Bash'', str ''Read'', str ''Bash'', str ''Write'']"
    by (simp add: example_plugin_def example_settings_def)
  have a: "alwaysAllowedTools (settings (removeAlwaysAllowed (str ''Bash'') example_plugin))
     = [str ''Read'', str ''Write'']"
    using w ne by (simp add: old)
  have b: "count_list (alwaysAllowedTools
      (settings (removeAlwaysAllowed (str ''Bash'') example_plugin))) (str ''Read'') = 1"
    unfolding a by (simp add: str_def)
  have c: "maxTurns (settings (removeAlwaysAllowed (str ''Bash'') example_plugin)) = Fin 50"
    using w by (simp add: removeAlwaysAllowed_def saveSettings_def example_plugin_def
        example_settings_def)
  from a b c ne show ?thesis by simp
qed

subsection \<open>The budget and turn limits\<close>


lemma PosInf_or_Fin:
  "(if c then PosInf else Fin (of_nat v)) = PosInf
   \<or> (\<exists>m. (if c then PosInf else Fin (of_nat v)) = Fin (of_nat m))"
  by (cases c) auto

lemma NumberValue_shape: "NumberValue n = PosInf \<or> (\<exists>m. NumberValue n = Fin (of_nat m))"
proof (cases "n < 2 ^ 53")
  case True
  then have "NumberValue n = Fin (of_nat n)"
    unfolding NumberValue_def by (simp only: if_True)
  then show ?thesis by blast
next
  case False
  then show ?thesis
    unfolding NumberValue_def Let_def by (simp only: if_False PosInf_or_Fin)
qed

lemma isPositiveInteger_of_nat: "isPositiveInteger (Fin (of_nat m)) = (m > 0)"
  by simp

lemma parseInt10_positive:
  assumes "gt0 (parseInt10 v)"
  shows "isPositiveInteger (parseInt10 v) \<or> parseInt10 v = PosInf"
proof -
  define Z where "Z = takeWhile isDigit
     (let S = dropWhile isWhiteSpace v
      in if S \<noteq> [] \<and> (hd S = 0x2B \<or> hd S = 0x2D) then tl S else S)"
  define neg where "neg \<longleftrightarrow> dropWhile isWhiteSpace v \<noteq> [] \<and> hd (dropWhile isWhiteSpace v) = 0x2D"
  have eq: "parseInt10 v =
     (if Z = [] then NaN
      else if neg then negate (NumberValue (digitsValue Z))
      else NumberValue (digitsValue Z))"
    by (simp add: parseInt10_def Let_def Z_def neg_def)
  consider "NumberValue (digitsValue Z) = PosInf"
    | m where "NumberValue (digitsValue Z) = Fin (of_nat m)"
    using NumberValue_shape by blast
  then show ?thesis
  proof cases
    case 1
    with assms show ?thesis by (auto simp: eq split: if_splits)
  next
    case 2
    with assms show ?thesis by (auto simp: eq split: if_splits)
  qed
qed

lemma onMaxBudgetChange_eq:
  "onMaxBudgetChange pf v p =
     (if \<not> isNaN (pf v) \<and> gt0 (pf v)
      then \<lparr>settings = (settings p)\<lparr>maxBudgetPerSession := pf v\<rparr>,
            saveCalls = saveCalls p @ [(settings p)\<lparr>maxBudgetPerSession := pf v\<rparr>]\<rparr>
      else p)"
  by (simp add: onMaxBudgetChange_def saveSettings_def Let_def)

lemma onMaxTurnsChange_eq:
  "onMaxTurnsChange v p =
     (if \<not> isNaN (parseInt10 v) \<and> gt0 (parseInt10 v)
      then \<lparr>settings = (settings p)\<lparr>maxTurns := parseInt10 v\<rparr>,
            saveCalls = saveCalls p @ [(settings p)\<lparr>maxTurns := parseInt10 v\<rparr>]\<rparr>
      else p)"
  by (simp add: onMaxTurnsChange_def saveSettings_def Let_def)

lemma applyEdit_budget_positive:
  "gt0 (maxBudgetPerSession (settings p)) \<Longrightarrow>
   gt0 (maxBudgetPerSession (settings (applyEdit pf p e)))"
  by (cases e) (simp_all add: onMaxBudgetChange_eq onMaxTurnsChange_eq)

lemma applyEdit_turns_positive:
  "gt0 (maxTurns (settings p)) \<Longrightarrow> gt0 (maxTurns (settings (applyEdit pf p e)))"
  by (cases e) (simp_all add: onMaxBudgetChange_eq onMaxTurnsChange_eq)

lemma applyEdit_turns_integer:
  "isPositiveInteger (maxTurns (settings p)) \<or> maxTurns (settings p) = PosInf \<Longrightarrow>
   isPositiveInteger (maxTurns (settings (applyEdit pf p e)))
   \<or> maxTurns (settings (applyEdit pf p e)) = PosInf"
  using parseInt10_positive
  by (cases e) (auto simp add: onMaxBudgetChange_eq onMaxTurnsChange_eq)

lemma applyEdits_budget_positive:
  "gt0 (maxBudgetPerSession (settings p)) \<Longrightarrow>
   gt0 (maxBudgetPerSession (settings (applyEdits pf p es)))"
  unfolding applyEdits_def
  by (induction es arbitrary: p) (simp_all add: applyEdit_budget_positive)

lemma applyEdits_turns_positive:
  "gt0 (maxTurns (settings p)) \<Longrightarrow> gt0 (maxTurns (settings (applyEdits pf p es)))"
  unfolding applyEdits_def
  by (induction es arbitrary: p) (simp_all add: applyEdit_turns_positive)

lemma applyEdits_turns_integer:
  "isPositiveInteger (maxTurns (settings p)) \<or> maxTurns (settings p) = PosInf \<Longrightarrow>
   isPositiveInteger (maxTurns (settings (applyEdits pf p es)))
   \<or> maxTurns (settings (applyEdits pf p es)) = PosInf"
  unfolding applyEdits_def
proof (induction es arbitrary: p)
  case Nil
  then show ?case by simp
next
  case (Cons e es)
  from Cons.prems have "isPositiveInteger (maxTurns (settings (applyEdit pf p e)))
   \<or> maxTurns (settings (applyEdit pf p e)) = PosInf"
    by (rule applyEdit_turns_integer)
  then show ?case using Cons.IH by simp
qed


lemma bitlen_upper: "n < 2 ^ bitlen n"
proof (induction n rule: bitlen.induct)
  case (1 n)
  show ?case
  proof (cases "n = 0")
    case True
    then show ?thesis by (simp add: bitlen.simps)
  next
    case False
    with 1 have "n div 2 < 2 ^ bitlen (n div 2)" by simp
    then have "n < 2 * 2 ^ bitlen (n div 2)" by linarith
    with False show ?thesis by (subst bitlen.simps) simp
  qed
qed

lemma bitlen_lower: "n > 0 \<Longrightarrow> 2 ^ (bitlen n - 1) \<le> n"
proof (induction n rule: bitlen.induct)
  case (1 n)
  then have n: "n \<noteq> 0" by simp
  have b: "bitlen n = Suc (bitlen (n div 2))"
    using n by (subst bitlen.simps) simp
  show ?case
  proof (cases "n div 2 = 0")
    case True
    then have "bitlen (n div 2) = 0" by (simp add: bitlen.simps)
    with b n show ?thesis by simp
  next
    case False
    with 1 n have IH: "2 ^ (bitlen (n div 2) - 1) \<le> n div 2" by simp
    from False have "bitlen (n div 2) \<noteq> 0" by (subst bitlen.simps) simp
    then obtain k where k: "bitlen (n div 2) = Suc k" by (cases "bitlen (n div 2)") auto
    from IH k have "2 * 2 ^ k \<le> 2 * (n div 2)" by simp
    also have "\<dots> \<le> n" by simp
    finally show ?thesis by (simp add: b k)
  qed
qed

lemma NumberValue_overflow:
  assumes "n \<ge> 2 ^ 1024"
  shows "NumberValue n = PosInf"
proof -
  define b where "b = bitlen n"
  define e where "e = b - 53"
  define q where "q = n div 2 ^ e"
  define q' where "q' = (if n mod 2 ^ e > 2 ^ (e - 1) \<or> (n mod 2 ^ e = 2 ^ (e - 1) \<and> odd q)
     then q + 1 else q)"
  have "(2::nat) ^ 1024 < 2 ^ b"
    using assms bitlen_upper [of n] unfolding b_def by linarith
  then have b: "1024 < b" by (simp only: power_strict_increasing_iff)
  have pos: "n > 0" using assms by (metis gr0I not_less_eq_eq power_eq_0_iff zero_less_Suc le_zero_eq zero_neq_numeral)
  have "2 ^ (b - 1) \<le> n" unfolding b_def using pos by (rule bitlen_lower)
  moreover have "b - 1 = 52 + e" using b by (simp add: e_def)
  ultimately have "2 ^ 52 * 2 ^ e \<le> n" by (simp add: power_add)
  then have "2 ^ 52 \<le> q"
    unfolding q_def by (metis div_le_mono nonzero_mult_div_cancel_right power_not_zero zero_neq_numeral)
  moreover have "q \<le> q'" by (simp add: q'_def)
  ultimately have "2 ^ 52 * 2 ^ e \<le> q' * 2 ^ e" by simp
  moreover have "(2::nat) ^ 1024 \<le> 2 ^ 52 * 2 ^ e"
  proof -
    have "1024 \<le> 52 + e" using b by (simp add: e_def)
    then have "(2::nat) ^ 1024 \<le> 2 ^ (52 + e)" by (rule power_increasing) simp
    then show ?thesis by (simp only: power_add)
  qed
  ultimately have big: "2 ^ 1024 \<le> q' * 2 ^ e" by linarith
  have "\<not> n < 2 ^ 53" 
  proof -
    have "(2::nat) ^ 53 \<le> 2 ^ 1024" by (rule power_increasing) simp_all
    with assms show ?thesis by linarith
  qed
  then have "NumberValue n = (if q' * 2 ^ e \<ge> 2 ^ 1024 then PosInf else Fin (of_nat (q' * 2 ^ e)))"
    unfolding NumberValue_def Let_def q'_def q_def e_def b_def by (simp only: if_False)
  with big show ?thesis by (simp only: if_True)
qed

lemma digitsValue_snoc: "digitsValue (Z @ [c]) = 10 * digitsValue Z + unat (c - 0x30)"
  by (simp add: digitsValue_def)

lemma digitsValue_nines: "digitsValue (replicate k 0x39) = 10 ^ k - 1"
proof (induction k)
  case 0
  then show ?case by (simp add: digitsValue_def)
next
  case (Suc k)
  have "replicate (Suc k) (0x39 :: 16 word) = replicate k 0x39 @ [0x39]"
    by (simp add: replicate_append_same)
  then have "digitsValue (replicate (Suc k) 0x39) = 10 * (10 ^ k - 1) + 9"
    using Suc by (simp only: digitsValue_snoc) simp
  also have "\<dots> = 10 ^ Suc k - 1"
  proof -
    have "(1::nat) \<le> 10 ^ k" by simp
    then show ?thesis by (simp add: algebra_simps)
  qed
  finally show ?case .
qed

lemma parseInt10_nines:
  assumes "k > 0"
  shows "parseInt10 (replicate k 0x39) = NumberValue (10 ^ k - 1)"
proof -
  have ws: "\<not> isWhiteSpace 0x39" by (simp add: isWhiteSpace_def)
  have dg: "isDigit 0x39" by (simp add: isDigit_def)
  have S: "dropWhile isWhiteSpace (replicate k (0x39 :: 16 word)) = replicate k 0x39"
    using ws by (simp add: dropWhile_replicate)
  have h: "hd (replicate k (0x39 :: 16 word)) = 0x39" "replicate k (0x39 :: 16 word) \<noteq> []"
    using assms by simp_all
  have Z: "takeWhile isDigit (replicate k (0x39 :: 16 word)) = replicate k 0x39"
    using dg by (simp add: takeWhile_replicate)
  show ?thesis
    unfolding parseInt10_def Let_def S
    using h dg by (simp add: Z digitsValue_nines)
qed

text \<open>
  C5 as stated fails: a run of 309 nines is parsed by \<open>parseInt\<close> to \<open>Infinity\<close>, which
  passes the test \<open>!isNaN(parsed) && parsed > 0\<close>, so \<open>maxTurns\<close> is overwritten with a
  value that is not an integer.
\<close>

theorem maxTurns_infinity_counterexample:
  "maxTurns (settings example_plugin) = Fin 50
   \<and> maxTurns (settings (onMaxTurnsChange (replicate 309 0x39) example_plugin)) = PosInf
   \<and> \<not> isPositiveInteger (parseInt10 (replicate 309 0x39))
   \<and> \<not> isPositiveInteger
         (maxTurns (settings (onMaxTurnsChange (replicate 309 0x39) example_plugin)))"
proof -
  have "(2::nat) ^ 1024 \<le> 10 ^ 309 - 1" by simp
  then have "NumberValue (10 ^ 309 - 1) = PosInf" by (rule NumberValue_overflow)
  then have p: "parseInt10 (replicate 309 0x39) = PosInf"
    using parseInt10_nines [of 309] by simp
  have "onMaxTurnsChange (replicate 309 0x39) example_plugin =
     \<lparr>settings = (settings example_plugin)\<lparr>maxTurns := PosInf\<rparr>,
      saveCalls = saveCalls example_plugin @ [(settings example_plugin)\<lparr>maxTurns := PosInf\<rparr>]\<rparr>"
    unfolding onMaxTurnsChange_eq p by simp
  then show ?thesis
    by (simp add: p example_plugin_def example_settings_def)
qed

text \<open>
  C5, amended: each handler overwrites its setting (and saves) exactly when the parsed
  input is a number greater than 0, and otherwise changes nothing; a value \<open>parseInt\<close>
  lets through is a positive integer or \<open>Infinity\<close>. Hence under every sequence of
  edits a positive \<open>maxBudgetPerSession\<close> stays a positive number, and a \<open>maxTurns\<close>
  that is a positive integer or \<open>Infinity\<close> stays one.
\<close>

theorem max_settings_edits:
  "onMaxBudgetChange pf v p =
     (if \<not> isNaN (pf v) \<and> gt0 (pf v)
      then \<lparr>settings = (settings p)\<lparr>maxBudgetPerSession := pf v\<rparr>,
            saveCalls = saveCalls p @ [(settings p)\<lparr>maxBudgetPerSession := pf v\<rparr>]\<rparr>
      else p)
   \<and> onMaxTurnsChange v p =
     (if \<not> isNaN (parseInt10 v) \<and> gt0 (parseInt10 v)
      then \<lparr>settings = (settings p)\<lparr>maxTurns := parseInt10 v\<rparr>,
            saveCalls = saveCalls p @ [(settings p)\<lparr>maxTurns := parseInt10 v\<rparr>]\<rparr>
      else p)
   \<and> (\<not> isNaN (parseInt10 v) \<and> gt0 (parseInt10 v) \<longrightarrow>
        isPositiveInteger (parseInt10 v) \<or> parseInt10 v = PosInf)
   \<and> (gt0 (maxBudgetPerSession (settings p)) \<longrightarrow>
        gt0 (maxBudgetPerSession (settings (applyEdits pf p es))))
   \<and> (isPositiveInteger (maxTurns (settings p)) \<or> maxTurns (settings p) = PosInf \<longrightarrow>
        isPositiveInteger (maxTurns (settings (applyEdits pf p es)))
        \<or> maxTurns (settings (applyEdits pf p es)) = PosInf)"
  using onMaxBudgetChange_eq [of pf v p] onMaxTurnsChange_eq [of v p]
    parseInt10_positive [of v] applyEdits_budget_positive [of p pf es]
    applyEdits_turns_integer [of p pf es]
  by blast

lemmas parseInt10_eval = parseInt10_def str_def isWhiteSpace_def isDigit_def digitsValue_def NumberValue_def

theorem max_settings_edits_witness:
  "maxTurns (settings (onMaxTurnsChange (str ''25'') example_plugin)) = Fin 25
   \<and> saveCalls (onMaxTurnsChange (str ''25'') example_plugin)
       = [example_settings\<lparr>maxTurns := Fin 25\<rparr>]
   \<and> onMaxTurnsChange (str ''0'') example_plugin = example_plugin
   \<and> onMaxTurnsChange (str ''-3'') example_plugin = example_plugin
   \<and> onMaxTurnsChange (str ''abc'') example_plugin = example_plugin
   \<and> maxBudgetPerSession (settings (onMaxBudgetChange
        (\<lambda>s. if s = str ''2.5'' then Fin (5 / 2) else NaN) (str ''2.5'') example_plugin))
       = Fin (5 / 2)
   \<and> onMaxBudgetChange (\<lambda>s. if s = str ''2.5'' then Fin (5 / 2) else NaN) (str ''free'')
        example_plugin = example_plugin
   \<and> gt0 (maxBudgetPerSession (settings example_plugin))
   \<and> gt0 (maxBudgetPerSession (settings (applyEdits
        (\<lambda>s. if s = str ''2.5'' then Fin (5 / 2) else NaN) example_plugin
        [EditBudget (str ''2.5''), EditTurns (str ''7x''), EditTurns (str ''-1'')])))
   \<and> isPositiveInteger (maxTurns (settings example_plugin))
   \<and> maxTurns (settings (applyEdits
        (\<lambda>s. if s = str ''2.5'' then Fin (5 / 2) else NaN) example_plugin
        [EditBudget (str ''2.5''), EditTurns (str ''7x''), EditTurns (str ''-1'')])) = Fin 7"
proof -
  let ?pf = "\<lambda>s. if s = str ''2.5'' then Fin (5 / 2) else NaN"
  let ?es = "[EditBudget (str ''2.5''), EditTurns (str ''7x''), EditTurns (str ''-1'')]"
  have p25: "parseInt10 (str ''25'') = Fin 25" by (simp add: parseInt10_eval)
  have p0: "parseInt10 (str ''0'') = Fin 0" by (simp add: parseInt10_eval)
  have pm3: "parseInt10 (str ''-3'') = Fin (- 3)" by (simp add: parseInt10_eval)
  have pabc: "parseInt10 (str ''abc'') = NaN" by (simp add: parseInt10_eval)
  have p7x: "parseInt10 (str ''7x'') = Fin 7" by (simp add: parseInt10_eval)
  have pm1: "parseInt10 (str ''-1'') = Fin (- 1)" by (simp add: parseInt10_eval)
  have f1: "?pf (str ''2.5'') = Fin (5 / 2)" by simp
  have f2: "?pf (str ''free'') = NaN" by (simp add: str_def)
  have init: "gt0 (maxBudgetPerSession (settings example_plugin))"
    "isPositiveInteger (maxTurns (settings example_plugin))"
    by (simp_all add: example_plugin_def example_settings_def)
  have a: "maxTurns (settings (onMaxTurnsChange (str ''25'') example_plugin)) = Fin 25
     \<and> saveCalls (onMaxTurnsChange (str ''25'') example_plugin)
       = [example_settings\<lparr>maxTurns := Fin 25\<rparr>]"
    using max_settings_edits [of ?pf "str ''25''" example_plugin "[]"]
    by (simp add: p25 example_plugin_def)
  have b: "onMaxTurnsChange (str ''0'') example_plugin = example_plugin"
    using max_settings_edits [of ?pf "str ''0''" example_plugin "[]"] by (simp add: p0)
  have c: "onMaxTurnsChange (str ''-3'') example_plugin = example_plugin"
    using max_settings_edits [of ?pf "str ''-3''" example_plugin "[]"] by (simp add: pm3)
  have d: "onMaxTurnsChange (str ''abc'') example_plugin = example_plugin"
    using max_settings_edits [of ?pf "str ''abc''" example_plugin "[]"] by (simp add: pabc)
  have e: "maxBudgetPerSession (settings (onMaxBudgetChange ?pf (str ''2.5'') example_plugin))
       = Fin (5 / 2)"
    using max_settings_edits [of ?pf "str ''2.5''" example_plugin "[]"] by (simp add: f1)
  have f: "onMaxBudgetChange ?pf (str ''free'') example_plugin = example_plugin"
    using max_settings_edits [of ?pf "str ''free''" example_plugin "[]"] by (simp add: f2)
  have g: "gt0 (maxBudgetPerSession (settings (applyEdits ?pf example_plugin ?es)))"
    using max_settings_edits [of ?pf "str ''25''" example_plugin ?es] init by blast
  have h: "maxTurns (settings (applyEdits ?pf example_plugin ?es)) = Fin 7"
    by (simp add: applyEdits_def onMaxBudgetChange_eq onMaxTurnsChange_eq f1 p7x pm1
        example_plugin_def example_settings_def)
  from a b c d e f g h init show ?thesis by blast
qed


section \<open>Properties of the tool call display\<close>

lemma status_update:
  "tc_status (toolCall (update u d)) =
     (case u_status u of None \<Rightarrow> tc_status (toolCall d) | Some s \<Rightarrow> s)"
  by (simp add: update_def render_def Object_assign_def assignKey_def Let_def)

lemma update_all_snoc: "update_all (us @ [u]) d = update u (update_all us d)"
  by (simp add: update_all_def)

lemma status_update_all:
  "tc_status (toolCall (update_all us d)) =
     (if statuses_carried us = [] then tc_status (toolCall d) else last (statuses_carried us))"
proof (induction us rule: rev_induct)
  case Nil
  then show ?case by (simp add: update_all_def statuses_carried_def)
next
  case (snoc u us)
  have carried: "statuses_carried (us @ [u]) =
      statuses_carried us @ (case u_status u of None \<Rightarrow> [] | Some s \<Rightarrow> [s])"
    by (simp add: statuses_carried_def)
  show ?case
    unfolding update_all_snoc status_update carried using snoc.IH
    by (cases "u_status u") simp_all
qed

lemma statuses_carried_same:
  assumes "\<forall>u \<in> set us. u_status u = None \<or> u_status u = Some s"
  shows "set (statuses_carried us) \<subseteq> {s}"
  using assms by (induction us) (auto simp: statuses_carried_def split: option.splits)

text \<open>
  C1 as stated fails: \<open>update\<close> assigns whatever the partial update carries, so an
  update with \<open>status: "pending"\<close> returns a call that had reached \<open>success\<close> to
  \<open>pending\<close>.
\<close>

theorem update_reopens_counterexample:
  "tc_status (toolCall example_display) = TS_success
   \<and> tc_status (toolCall (update (no_updates\<lparr>u_status := Some TS_pending\<rparr>) example_display))
       = TS_pending"
  by (simp add: update_def render_def Object_assign_def assignKey_def Let_def
      example_display_def example_toolCall_def no_updates_def)

text \<open>
  C1, amended: \<open>update\<close> checks no order of statuses. After \<open>update\<close> the status is the
  one the partial update carries, and the previous one when it carries none; after a
  sequence of updates it is the last status carried, and the initial one when none is.
  So the status (in particular \<open>success\<close> or \<open>error\<close>) is never changed by updates that
  carry no status or the current one, and a completed call is reopened only by an
  update that itself carries \<open>pending\<close> or \<open>running\<close>.
\<close>

theorem update_status_last_carried:
  "tc_status (toolCall (update u d)) =
     (case u_status u of None \<Rightarrow> tc_status (toolCall d) | Some s \<Rightarrow> s)
   \<and> tc_status (toolCall (update_all us d)) =
     (if statuses_carried us = [] then tc_status (toolCall d) else last (statuses_carried us))
   \<and> ((\<forall>u \<in> set us. u_status u = None \<or> u_status u = Some (tc_status (toolCall d))) \<longrightarrow>
        tc_status (toolCall (update_all us d)) = tc_status (toolCall d))
   \<and> (tc_status (toolCall d) \<in> {TS_success, TS_error}
        \<and> tc_status (toolCall (update_all us d)) \<in> {TS_pending, TS_running} \<longrightarrow>
        (\<exists>u \<in> set us. u_status u \<in> {Some TS_pending, Some TS_running}))"
proof (intro conjI impI)
  show "tc_status (toolCall (update u d)) =
     (case u_status u of None \<Rightarrow> tc_status (toolCall d) | Some s \<Rightarrow> s)"
    by (rule status_update)
  show all: "tc_status (toolCall (update_all us d)) =
     (if statuses_carried us = [] then tc_status (toolCall d) else last (statuses_carried us))"
    by (rule status_update_all)
  {
    assume "\<forall>u \<in> set us. u_status u = None \<or> u_status u = Some (tc_status (toolCall d))"
    then have sub: "set (statuses_carried us) \<subseteq> {tc_status (toolCall d)}"
      by (rule statuses_carried_same)
    show "tc_status (toolCall (update_all us d)) = tc_status (toolCall d)"
    proof (cases "statuses_carried us = []")
      case True
      then show ?thesis by (simp add: all)
    next
      case False
      then have "last (statuses_carried us) \<in> set (statuses_carried us)" by simp
      with sub have "last (statuses_carried us) = tc_status (toolCall d)" by blast
      with False show ?thesis by (simp add: all)
    qed
  }
  {
    assume a: "tc_status (toolCall d) \<in> {TS_success, TS_error}
        \<and> tc_status (toolCall (update_all us d)) \<in> {TS_pending, TS_running}"
    then have ne: "statuses_carried us \<noteq> []"
      by (auto simp: all split: if_splits)
    then have "last (statuses_carried us) \<in> set (statuses_carried us)" by simp
    then obtain u where "u \<in> set us" "u_status u = Some (last (statuses_carried us))"
      by (auto simp: statuses_carried_def split: option.splits)
    moreover from a ne have "last (statuses_carried us) \<in> {TS_pending, TS_running}"
      by (simp add: all)
    ultimately show "\<exists>u \<in> set us. u_status u \<in> {Some TS_pending, Some TS_running}"
      by auto
  }
qed

theorem update_status_last_carried_witness:
  "tc_status (toolCall (update_all
      [no_updates\<lparr>u_output := Some (JStr (str ''done''))\<rparr>,
       no_updates\<lparr>u_status := Some TS_success, u_endTime := Some (Some (Fin 1300))\<rparr>]
      example_display)) = TS_success
   \<and> tc_status (toolCall example_display) = TS_success
   \<and> tc_status (toolCall (update_all
      [no_updates\<lparr>u_status := Some TS_running\<rparr>, no_updates\<lparr>u_error := Some None\<rparr>]
      example_display)) = TS_running
   \<and> u_status (no_updates\<lparr>u_status := Some TS_running\<rparr>) = Some TS_running"
proof -
  let ?us = "[no_updates\<lparr>u_output := Some (JStr (str ''done''))\<rparr>,
       no_updates\<lparr>u_status := Some TS_success, u_endTime := Some (Some (Fin 1300))\<rparr>]"
  let ?vs = "[no_updates\<lparr>u_status := Some TS_running\<rparr>, no_updates\<lparr>u_error := Some None\<rparr>]"
  have init: "tc_status (toolCall example_display) = TS_success"
    by (simp add: example_display_def example_toolCall_def)
  have ca: "\<forall>u \<in> set ?us.
      u_status u = None \<or> u_status u = Some (tc_status (toolCall example_display))"
    by (simp add: init no_updates_def)
  have cb: "statuses_carried ?vs = [TS_running]"
    by (simp add: statuses_carried_def no_updates_def)
  have a: "tc_status (toolCall (update_all ?us example_display)) = TS_success"
    using update_status_last_carried [of no_updates example_display ?us] ca init
    by metis
  have b: "tc_status (toolCall (update_all ?vs example_display)) = TS_running"
    using update_status_last_carried [of no_updates example_display ?vs]
    unfolding cb by simp
  from a b init show ?thesis by simp
qed

section \<open>Properties of the autocomplete popup\<close>

lemma getFileSuggestions_length: "length (getFileSuggestions env query) \<le> 10"
  by (simp add: getFileSuggestions_def Let_def)

lemma getFileSuggestions_from_matching_file:
  assumes "s \<in> set (getFileSuggestions env query)"
  shows "\<exists>f \<in> set (getMarkdownFiles env).
           s_value s = f_path f \<and> s_label s = f_basename f \<and> s_type s = File
           \<and> (includes_str (toLowerCase env (f_path f)) (toLowerCase env query)
                \<or> includes_str (toLowerCase env (f_basename f)) (toLowerCase env query))"
proof -
  from assms obtain f where
    f: "f \<in> set (take 10 (filter (\<lambda>f. includes_str (toLowerCase env (f_path f)) (toLowerCase env query)
                          \<or> includes_str (toLowerCase env (f_basename f)) (toLowerCase env query))
                 (getMarkdownFiles env)))"
    and s: "s = \<lparr>s_type = File, s_value = f_path f, s_label = f_basename f,
                    s_description = (case f_parent f of None \<Rightarrow> [] | Some d \<Rightarrow> d),
                    s_icon = Some (str ''file-text'')\<rparr>"
    by (auto simp: getFileSuggestions_def Let_def)
  from f have "f \<in> set (filter (\<lambda>f. includes_str (toLowerCase env (f_path f)) (toLowerCase env query)
                          \<or> includes_str (toLowerCase env (f_basename f)) (toLowerCase env query))
                 (getMarkdownFiles env))"
    by (rule in_set_takeD)
  with s show ?thesis by auto
qed

lemma show_popup_attached:
  "(containerEl (show_popup env type query p) \<noteq> None)
     = (getSuggestions env type query \<noteq> [])"
  by (simp add: show_popup_def render_popup_def hide_def Let_def)

lemma show_popup_never_visible: "\<not> isVisible (show_popup env type query p)"
  by (simp add: show_popup_def render_popup_def hide_def isVisible_def Let_def)

text \<open>
  C10 fails on the code. With the note \<open>notes/Ark.md\<close> in the vault and the query
  \<open>ark\<close>, \<open>show\<close> produces one suggestion, selects index 0 and attaches the element to
  the document, but the flag \<open>visible\<close> is false afterwards: \<open>show\<close> sets it and then
  calls \<open>render\<close>, whose first step is \<open>hide()\<close>.
\<close>

theorem show_popup_visible_flag_lost:
  "suggestions (show_popup example_env File (str ''ark'') new_popup)
     = [\<lparr>s_type = File, s_value = str ''notes/Ark.md'', s_label = str ''Ark'',
         s_description = str ''notes'', s_icon = Some (str ''file-text'')\<rparr>]
   \<and> selectedIndex (show_popup example_env File (str ''ark'') new_popup) = 0
   \<and> containerEl (show_popup example_env File (str ''ark'') new_popup)
     = Some [(\<lparr>s_type = File, s_value = str ''notes/Ark.md'', s_label = str ''Ark'',
         s_description = str ''notes'', s_icon = Some (str ''file-text'')\<rparr>, True)]
   \<and> isVisible (show_popup example_env File (str ''ark'') new_popup) = False"
proof -
  have sugg: "getSuggestions example_env File (str ''ark'')
     = [\<lparr>s_type = File, s_value = str ''notes/Ark.md'', s_label = str ''Ark'',
         s_description = str ''notes'', s_icon = Some (str ''file-text'')\<rparr>]"
    by (simp add: getSuggestions_def getFileSuggestions_def example_env_def
        toLowerCase_ascii_def startsWith_def str_def Let_def)
  show ?thesis
    unfolding show_popup_def Let_def
    by (simp add: sugg render_popup_def hide_def isVisible_def new_popup_def)
qed

section \<open>Properties of the MCP server modal\<close>



lemma dropWhile_nonempty_witness:
  assumes "dropWhile P xs \<noteq> []"
  shows "\<exists>x \<in> set xs. \<not> P x"
proof -
  from assms have "\<not> P (hd (dropWhile P xs))" by (rule hd_dropWhile)
  moreover from assms have "hd (dropWhile P xs) \<in> set (dropWhile P xs)" by (rule hd_in_set)
  then have "hd (dropWhile P xs) \<in> set xs" by (rule set_dropWhileD)
  ultimately show ?thesis by blast
qed










































end
